theory Spec2Isabelle
  imports Main "HOL-Library.Word"
begin

section \<open>Package dt, file shared/datatypes/user.go: the data model\<close>

text \<open>
  Go's \<open>uint64\<close> and \<open>int64\<close> are 64-bit words. A \<open>time.Time\<close> is read as a
  wall-clock instant, a count of nanoseconds on the integer line (the values the methods
  \<open>Add\<close> and \<open>After\<close> work with when no monotonic reading is compared, as is the case
  for a timestamp scanned from the store). A \<open>time.Duration\<close> is an \<open>int64\<close> count of
  nanoseconds, so its arithmetic wraps around. \<open>AuthMethod\<close> and \<open>FlexIDType\<close> are
  named \<open>int\<close> types; they are only compared, never computed with.
\<close>

type_synonym uint64 = "64 word"
type_synonym Time = int
type_synonym Duration = "64 word"
type_synonym AuthMethod = int
type_synonym FlexIDType = int

text \<open>\<open>sql.NullInt64\<close>: a value and the flag that says it is not NULL.\<close>

record NullInt64 =
  Int64 :: "64 word"
  Valid :: bool

text \<open>The struct \<open>User\<close>; the pointer \<open>*time.Time\<close> is an option, \<open>nil\<close> being \<open>None\<close>.\<close>

record User =
  ID :: uint64
  Name :: string
  Email :: string
  LocationID :: int
  StripeCustomerID :: string
  AuthorizationID :: NullInt64
  LastAuthenticated :: "Time option"
  LastAuthenticationMethod :: AuthMethod
  Trainer :: bool

definition fidtInvalid :: FlexIDType where "fidtInvalid = 0"
definition fidtEmail :: FlexIDType where "fidtEmail = 1"
definition fidtPhone :: FlexIDType where "fidtPhone = 2"

text \<open>
  Every way a method of this file can end other than with a value: the four error
  variables of the file, \<open>ErrNoAddress\<close> (declared elsewhere in package dt and returned
  by \<open>GetAddress\<close>), \<open>sql.ErrNoRows\<close>, any other failure of the database driver, the two
  failures of \<open>strconv.Atoi\<close>, the error \<open>IsAuthenticated\<close> builds for a negative
  setting, and the run-time panic of a nil pointer dereference (not an error value of Go:
  the call does not return).
\<close>

datatype error =
    ErrMissingUser
  | ErrMissingFlexIdType
  | ErrMissingFlexID
  | ErrInvalidFlexIDType
  | ErrNoAddress
  | sql_ErrNoRows
  | driver_error string
  | strconv_ErrSyntax
  | strconv_ErrRange
  | ErrNegativeHours
  | panic_nil_dereference

section \<open>The process environment and \<open>strconv.Atoi\<close>\<close>

definition Getenv :: "(string \<rightharpoonup> string) \<Rightarrow> string \<Rightarrow> string" where
  "Getenv env key = (case env key of None \<Rightarrow> [] | Some v \<Rightarrow> v)"

definition isDigit :: "char \<Rightarrow> bool" where
  "isDigit c = (48 \<le> (of_char c :: nat) \<and> (of_char c :: nat) \<le> 57)"

text \<open>
  \<open>strconv.ParseUint(s, 10, 64)\<close>, byte by byte from the value \<open>n\<close> read so far: a
  byte that is no decimal digit is a syntax error, a value that leaves \<open>uint64\<close> a
  range error, whichever comes first.
\<close>

fun parseUintFrom :: "nat \<Rightarrow> string \<Rightarrow> error + nat" where
  "parseUintFrom n [] = Inr n"
| "parseUintFrom n (c # cs) =
     (if \<not> isDigit c then Inl strconv_ErrSyntax
      else if 1844674407370955162 \<le> n then Inl strconv_ErrRange
      else let n1 = n * 10 + (of_char c - 48)
           in if 18446744073709551615 < n1 then Inl strconv_ErrRange
              else parseUintFrom n1 cs)"

text \<open>
  \<open>strconv.Atoi\<close> on a 64-bit platform (its fast path for short strings agrees with
  \<open>ParseInt(s, 10, 0)\<close>): an optional sign, then at least one byte, read by
  \<open>ParseUint\<close>; a value outside the range of \<open>int\<close> is a range error.
\<close>

definition Atoi :: "string \<Rightarrow> error + int" where
  "Atoi s =
     (if s = [] then Inl strconv_ErrSyntax
      else let neg = (hd s = CHR ''-'');
               ds = (if hd s = CHR ''+'' \<or> hd s = CHR ''-'' then tl s else s)
           in if ds = [] then Inl strconv_ErrSyntax
              else (case parseUintFrom 0 ds of
                      Inl err \<Rightarrow> Inl err
                    | Inr un \<Rightarrow>
                        if \<not> neg \<and> 9223372036854775808 \<le> un then Inl strconv_ErrRange
                        else if neg \<and> 9223372036854775808 < un then Inl strconv_ErrRange
                        else Inr (if neg then - int un else int un)))"

section \<open>\<open>User.IsAuthenticated\<close>\<close>

definition Hour :: Duration where
  "Hour = 3600000000000"

definition Time_Add :: "Time \<Rightarrow> Duration \<Rightarrow> Time" where
  "Time_Add t d = t + sint d"

definition Time_After :: "Time \<Rightarrow> Time \<Rightarrow> bool" where
  "Time_After t u = (u < t)"

text \<open>
  Lines 100 to 115: the number of hours \<open>t\<close> read from
  \<open>ABOT_REQUIRE_AUTH_IN_HOURS\<close>, 168 when the variable is unset or empty (the log line
  is not modelled).
\<close>

definition requireAuthInHours :: "(string \<rightharpoonup> string) \<Rightarrow> error + int" where
  "requireAuthInHours env =
     (let tmp = Getenv env ''ABOT_REQUIRE_AUTH_IN_HOURS''
      in if length tmp > 0 then
           (case Atoi tmp of
              Inl err \<Rightarrow> Inl err
            | Inr t \<Rightarrow> if t < 0 then Inl ErrNegativeHours else Inr t)
         else Inr 168)"

text \<open>
  Lines 116 to 122. The environment and the clock are arguments. The product
  \<open>time.Duration(-1*t) * time.Hour\<close> is an \<open>int64\<close> product. \<open>After\<close> has a value
  receiver, so \<open>u.LastAuthenticated.After(oldTime)\<close> dereferences the pointer before
  anything is compared: on \<open>nil\<close> the call panics.
\<close>

definition IsAuthenticated ::
  "(string \<rightharpoonup> string) \<Rightarrow> Time \<Rightarrow> User \<Rightarrow> AuthMethod \<Rightarrow> error + bool" where
  "IsAuthenticated env now u m =
     (case requireAuthInHours env of
        Inl err \<Rightarrow> Inl err
      | Inr t \<Rightarrow>
          let oldTime = Time_Add now (word_of_int (- 1 * t) * Hour)
          in (case LastAuthenticated u of
                None \<Rightarrow> Inl panic_nil_dereference
              | Some la \<Rightarrow> Inr (Time_After la oldTime \<and> m \<le> LastAuthenticationMethod u)))"

section \<open>The record store behind \<open>*sqlx.DB\<close>\<close>

text \<open>
  The tables the queries of this file read and write, each a list of rows with the
  columns those queries name. \<open>db_fault\<close> stands for every failure of the driver other
  than an empty result (a lost connection, say): while it is set, each statement fails
  with that error.
\<close>

record userflexids_row =
  f_userid :: uint64
  f_flexid :: string
  f_flexidtype :: FlexIDType
  f_createdat :: Time

record users_row =
  u_id :: uint64
  u_name :: string
  u_email :: string
  u_lastauthenticated :: "Time option"
  u_stripecustomerid :: string
  u_authorizationid :: "64 word option"

record addresses_row =
  a_id :: uint64
  a_userid :: uint64
  a_cardid :: uint64
  a_name :: string
  a_line1 :: string
  a_line2 :: string
  a_city :: string
  a_state :: string
  a_country :: string
  a_zip :: string
  a_zip5 :: string
  a_zip4 :: string

record DB =
  db_fault :: "string option"
  userflexids :: "userflexids_row list"
  users :: "users_row list"
  addresses :: "addresses_row list"

text \<open>
  \<open>db.Get(dest, query, args...)\<close>: the first row of the query's result, or
  \<open>sql.ErrNoRows\<close> when the result is empty. The argument \<open>rows\<close> is the result of the
  SELECT on the store. A SELECT leaves the store as it is.
\<close>

definition db_Get :: "DB \<Rightarrow> 'r list \<Rightarrow> (error + 'r) \<times> DB" where
  "db_Get db rows =
     (case db_fault db of
        Some e \<Rightarrow> (Inl (driver_error e), db)
      | None \<Rightarrow> (case rows of [] \<Rightarrow> (Inl sql_ErrNoRows, db) | r # _ \<Rightarrow> (Inr r, db)))"

text \<open>\<open>db.Exec\<close> of \<open>UPDATE addresses SET name=$1 WHERE id=$2\<close>.\<close>

definition db_Exec_update_addresses_name ::
  "DB \<Rightarrow> string \<Rightarrow> uint64 \<Rightarrow> (error + unit) \<times> DB" where
  "db_Exec_update_addresses_name db name aid =
     (case db_fault db of
        Some e \<Rightarrow> (Inl (driver_error e), db)
      | None \<Rightarrow>
          (Inr (),
           db\<lparr>addresses :=
                 map (\<lambda>r. if a_id r = aid then r\<lparr>a_name := name\<rparr> else r) (addresses db)\<rparr>))"

section \<open>\<open>GetUser\<close>\<close>

text \<open>
  \<open>SELECT userid FROM userflexids WHERE flexid=$1 AND flexidtype=$2 ORDER BY createdat
  DESC\<close>. (Rows created at the same instant keep the order of the table; SQL leaves
  their order open.)
\<close>

definition select_userflexids :: "DB \<Rightarrow> string \<Rightarrow> FlexIDType \<Rightarrow> userflexids_row list" where
  "select_userflexids db fid fidT =
     sort_key (\<lambda>r. - f_createdat r)
       (filter (\<lambda>r. f_flexid r = fid \<and> f_flexidtype r = fidT) (userflexids db))"

text \<open>
  sqlx fills the fields of \<open>var u User\<close> that the selected columns \<open>id, name, email,
  lastauthenticated, stripecustomerid\<close> name; every other field keeps its zero value.
\<close>

definition scan_User :: "users_row \<Rightarrow> User" where
  "scan_User r =
     \<lparr>ID = u_id r, Name = u_name r, Email = u_email r, LocationID = 0,
      StripeCustomerID = u_stripecustomerid r,
      AuthorizationID = \<lparr>Int64 = 0, Valid = False\<rparr>,
      LastAuthenticated = u_lastauthenticated r,
      LastAuthenticationMethod = 0, Trainer = False\<rparr>"

text \<open>Lines 77 to 85: \<open>SELECT ... FROM users WHERE id=$1\<close>, the error passed on as it is.\<close>

definition loadUser :: "DB \<Rightarrow> uint64 \<Rightarrow> (error + User) \<times> DB" where
  "loadUser db uid =
     (case db_Get db (filter (\<lambda>r. u_id r = uid) (users db)) of
        (Inl err, db') \<Rightarrow> (Inl err, db')
      | (Inr r, db') \<Rightarrow> (Inr (scan_User r), db'))"

text \<open>
  Lines 59 to 76, then \<open>loadUser\<close>. The assignment \<open>fidT = fidtPhone\<close> (``XXX
  temporary. we only have phone numbers atm'') comes before both checks.
\<close>

definition GetUser :: "DB \<Rightarrow> uint64 \<Rightarrow> string \<Rightarrow> FlexIDType \<Rightarrow> (error + User) \<times> DB" where
  "GetUser db uid fid fidT =
     (if uid = 0 then
        (let fidT = fidtPhone
         in if fid = [] then (Inl ErrMissingFlexID, db)
            else if fidT = fidtInvalid then (Inl ErrInvalidFlexIDType, db)
            else (case db_Get db (map f_userid (select_userflexids db fid fidT)) of
                    (Inl err, db') \<Rightarrow>
                      if err = sql_ErrNoRows then (Inl ErrMissingUser, db')
                      else (Inl err, db')
                  | (Inr uid', db') \<Rightarrow> loadUser db' uid'))
      else loadUser db uid)"

section \<open>Addresses\<close>

text \<open>
  Modelled from the spec: the struct \<open>Address\<close> is declared in another file of package
  dt. Its fields here are the ones this file uses: the seven columns the two SELECTs
  scan into it, and \<open>Zip5\<close> and \<open>Zip4\<close>, which \<open>SaveAddress\<close> reads. The field \<open>Name\<close>
  is \<open>AddressName\<close>, since \<open>Name\<close> is the user's.
\<close>

record Address =
  AddressName :: string
  Line1 :: string
  Line2 :: string
  City :: string
  State :: string
  Country :: string
  Zip :: string
  Zip5 :: string
  Zip4 :: string

definition scan_Address :: "addresses_row \<Rightarrow> Address" where
  "scan_Address r =
     \<lparr>AddressName = a_name r, Line1 = a_line1 r, Line2 = a_line2 r, City = a_city r,
      State = a_state r, Country = a_country r, Zip = a_zip r, Zip5 = [], Zip4 = []\<rparr>"












definition UpdateAddressName ::
  "DB \<Rightarrow> User \<Rightarrow> uint64 \<Rightarrow> string \<Rightarrow> (error + Address) \<times> DB" where
  "UpdateAddressName db u aid name =
     (case db_Exec_update_addresses_name db name aid of
        (Inl err, db1) \<Rightarrow> (Inl err, db1)
      | (Inr _, db1) \<Rightarrow>
          (case db_Get db1 (filter (\<lambda>r. a_id r = aid) (addresses db1)) of
             (Inl err, db2) \<Rightarrow> (Inl err, db2)
           | (Inr r, db2) \<Rightarrow> (Inr (scan_Address r), db2)))"

section \<open>\<open>User.CheckActiveAuthorization\<close>\<close>

definition scan_NullInt64 :: "64 word option \<Rightarrow> NullInt64" where
  "scan_NullInt64 v =
     (case v of
        None \<Rightarrow> \<lparr>Int64 = 0, Valid = False\<rparr>
      | Some n \<Rightarrow> \<lparr>Int64 = n, Valid = True\<rparr>)"

definition CheckActiveAuthorization :: "DB \<Rightarrow> User \<Rightarrow> (error + bool) \<times> DB" where
  "CheckActiveAuthorization db u =
     (case db_Get db (map u_authorizationid (filter (\<lambda>r. u_id r = ID u) (users db))) of
        (Inl err, db') \<Rightarrow> (Inl err, db')
      | (Inr v, db') \<Rightarrow>
          (let authID = scan_NullInt64 v
           in if \<not> Valid authID then (Inr False, db') else (Inr True, db')))"

section \<open>The spec's label normalization\<close>

text \<open>
  The spec's words for \<open>NormalizeLabel\<close>, on ASCII text: split the text on white space,
  lower-case each token, map the tokens through the synonym table, ignore the tokens
  outside it, and let the last matching token decide; no matching token is
  \<open>NoAddressMatch\<close>. White space is the six characters tab, line feed, vertical tab,
  form feed, carriage return and space; a token is a maximal run of other characters;
  lower-casing replaces each capital letter by its small letter.
\<close>

definition spec_isWhitespace :: "char \<Rightarrow> bool" where
  "spec_isWhitespace c =
     (c \<in> set [CHR 0x09, CHR 0x0A, CHR 0x0B, CHR 0x0C, CHR 0x0D, CHR '' ''])"

function spec_tokens :: "string \<Rightarrow> string list" where
  "spec_tokens [] = []"
| "spec_tokens (c # cs) =
     (if spec_isWhitespace c then spec_tokens cs
      else (c # takeWhile (\<lambda>d. \<not> spec_isWhitespace d) cs) #
           spec_tokens (dropWhile (\<lambda>d. \<not> spec_isWhitespace d) cs))"
  by pat_completeness auto
termination
  by (relation "measure length") (auto simp: less_Suc_eq_le length_dropWhile_le)

definition spec_lower_char :: "char \<Rightarrow> char" where
  "spec_lower_char c =
     (case map_of (zip ''ABCDEFGHIJKLMNOPQRSTUVWXYZ'' ''abcdefghijklmnopqrstuvwxyz'') c of
        None \<Rightarrow> c
      | Some l \<Rightarrow> l)"

definition spec_lowercase :: "string \<Rightarrow> string" where
  "spec_lowercase w = map spec_lower_char w"



section \<open>A small store and two users, for concrete runs\<close>

text \<open>
  Bob (id 3) has never authenticated. Ann (id 7) has an outstanding authorization in
  the store. The phone number once mapped to Bob was mapped to Ann later; Ann's e-mail
  address is mapped to her as well. Ann owns address 11, Bob address 12.
\<close>

definition ex_bob_row :: users_row where
  "ex_bob_row =
     \<lparr>u_id = 3, u_name = ''Bob'', u_email = ''bob@example.com'',
      u_lastauthenticated = None, u_stripecustomerid = ''cus_3'',
      u_authorizationid = None\<rparr>"

definition ex_ann_row :: users_row where
  "ex_ann_row =
     \<lparr>u_id = 7, u_name = ''Ann'', u_email = ''ann@example.com'',
      u_lastauthenticated = Some 1000, u_stripecustomerid = ''cus_7'',
      u_authorizationid = Some 42\<rparr>"

definition ex_ann_home :: addresses_row where
  "ex_ann_home =
     \<lparr>a_id = 11, a_userid = 7, a_cardid = 0, a_name = ''home'', a_line1 = ''1 Main St'',
      a_line2 = ''Apt 2'', a_city = ''Springfield'', a_state = ''IL'', a_country = ''USA'',
      a_zip = ''62701-1234'', a_zip5 = ''62701'', a_zip4 = ''1234''\<rparr>"

definition ex_bob_office :: addresses_row where
  "ex_bob_office =
     \<lparr>a_id = 12, a_userid = 3, a_cardid = 0, a_name = ''office'', a_line1 = ''9 Elm St'',
      a_line2 = [], a_city = ''Dayton'', a_state = ''OH'', a_country = ''USA'',
      a_zip = ''45402'', a_zip5 = ''45402'', a_zip4 = []\<rparr>"

definition ex_db :: DB where
  "ex_db =
     \<lparr>db_fault = None,
      userflexids =
        [\<lparr>f_userid = 3, f_flexid = ''+15550100'', f_flexidtype = 2, f_createdat = 100\<rparr>,
         \<lparr>f_userid = 7, f_flexid = ''+15550100'', f_flexidtype = 2, f_createdat = 900\<rparr>,
         \<lparr>f_userid = 7, f_flexid = ''ann@example.com'', f_flexidtype = 1,
          f_createdat = 500\<rparr>],
      users = [ex_bob_row, ex_ann_row],
      addresses = [ex_ann_home, ex_bob_office]\<rparr>"

text \<open>The \<open>User\<close> values \<open>GetUser\<close> builds from the two rows.\<close>

definition ex_bob :: User where
  "ex_bob =
     \<lparr>ID = 3, Name = ''Bob'', Email = ''bob@example.com'', LocationID = 0,
      StripeCustomerID = ''cus_3'', AuthorizationID = \<lparr>Int64 = 0, Valid = False\<rparr>,
      LastAuthenticated = None, LastAuthenticationMethod = 0, Trainer = False\<rparr>"

definition ex_ann :: User where
  "ex_ann =
     \<lparr>ID = 7, Name = ''Ann'', Email = ''ann@example.com'', LocationID = 0,
      StripeCustomerID = ''cus_7'', AuthorizationID = \<lparr>Int64 = 0, Valid = False\<rparr>,
      LastAuthenticated = Some 1000, LastAuthenticationMethod = 0, Trainer = False\<rparr>"

text \<open>An environment whose window is 2562048 hours, one more than an \<open>int64\<close> of
  nanoseconds holds.\<close>

definition ex_env_long :: "string \<rightharpoonup> string" where
  "ex_env_long = [''ABOT_REQUIRE_AUTH_IN_HOURS'' \<mapsto> ''2562048'']"


section \<open>Label normalization: the loop of \<open>GetAddress\<close> against the spec's words\<close>
















lemma spec_tokens_examples:
  "spec_tokens (''  to my'' @ [CHR 0x09, CHR 0x0A] @ ''FLAT '') = [''to'', ''my'', ''FLAT'']"
  "spec_lowercase ''The Quick BROWN fox, JUMPS 2 @[`{'' = ''the quick brown fox, jumps 2 @[`{''"
  by code_simp+




section \<open>\<open>IsAuthenticated\<close>: the window, the cutoff and the nil timestamp\<close>

lemma sint_word_of_int_64:
  "- 9223372036854775808 \<le> k \<Longrightarrow> k < 9223372036854775808 \<Longrightarrow>
   sint (word_of_int k :: 64 word) = k"
  unfolding sint_sbintrunc' by (rule signed_take_bit_int_eq_self) simp_all

lemma sint_hours:
  assumes "0 \<le> w" and "w \<le> 2562047"
  shows "sint (word_of_int (- 1 * w) * Hour :: 64 word) = - (w * 3600000000000)"
proof -
  have "(word_of_int (- 1 * w) * Hour :: 64 word) = word_of_int (- (w * 3600000000000))"
    by (simp add: Hour_def)
  moreover have "sint (word_of_int (- (w * 3600000000000)) :: 64 word) = - (w * 3600000000000)"
    using assms by (intro sint_word_of_int_64) simp_all
  ultimately show ?thesis by (simp only:)
qed

lemma requireAuthInHours_nonneg: "requireAuthInHours env = Inr w \<Longrightarrow> 0 \<le> w"
  by (auto simp: requireAuthInHours_def Let_def split: if_splits sum.splits)

lemma requireAuthInHours_unset:
  "env ''ABOT_REQUIRE_AUTH_IN_HOURS'' = None \<Longrightarrow> requireAuthInHours env = Inr 168"
  by (simp add: requireAuthInHours_def Getenv_def)

lemma requireAuthInHours_long: "requireAuthInHours ex_env_long = Inr 2562048"
  by (simp add: requireAuthInHours_def Getenv_def ex_env_long_def Atoi_def isDigit_def Let_def)

text \<open>
  C1. The claim: for a user whose \<open>LastAuthenticated\<close> is null, \<open>IsAuthenticated\<close>
  returns false and does not fail. What the code does: for every such user, every
  required method and every clock, the call ends with the error of the configuration, if
  there is one, and in the panic of a nil pointer dereference otherwise; it never returns
  false.
\<close>

theorem IsAuthenticated_nil_panics:
  "LastAuthenticated u = None \<Longrightarrow>
   IsAuthenticated env now u m =
     (case requireAuthInHours env of Inl err \<Rightarrow> Inl err | Inr t \<Rightarrow> Inl panic_nil_dereference)"
  by (simp add: IsAuthenticated_def split: sum.splits)

theorem IsAuthenticated_nil_panics_witness:
  "LastAuthenticated ex_bob = None \<and>
   IsAuthenticated Map.empty 5000 ex_bob 0 = Inl panic_nil_dereference"
proof -
  have h: "LastAuthenticated ex_bob = None" by (simp add: ex_bob_def)
  show ?thesis
    using h IsAuthenticated_nil_panics [OF h, of Map.empty 5000 0]
    by (simp add: requireAuthInHours_unset)
qed

text \<open>
  C5 as stated fails for a window that does not fit a \<open>time.Duration\<close>: with 2562048
  hours configured, a user authenticated at this very instant, with the required method,
  is reported as not authenticated, since the \<open>int64\<close> product wraps to a positive
  duration and the cutoff lies in the future.
\<close>

theorem IsAuthenticated_window_overflow_counterexample:
  "requireAuthInHours ex_env_long = Inr 2562048 \<and>
   LastAuthenticated ex_ann = Some 1000 \<and>
   (1000 :: int) - 2562048 * 3600000000000 < 1000 \<and>
   (0 :: int) \<le> LastAuthenticationMethod ex_ann \<and>
   IsAuthenticated ex_env_long 1000 ex_ann 0 = Inr False"
  by (simp add: requireAuthInHours_long IsAuthenticated_def ex_ann_def Time_Add_def
      Time_After_def Hour_def)

text \<open>
  C5, amended. When the configuration yields a window of \<open>w\<close> hours (168 when the
  variable is unset) and \<open>w\<close> hours fit a \<open>time.Duration\<close> (\<open>w\<close> is at most 2562047),
  \<open>IsAuthenticated\<close> returns true if and only if \<open>LastAuthenticated\<close> is non-null, the
  instant \<open>w\<close> hours before now is strictly before it, and the user's last
  authentication method is at least the required one.
\<close>

theorem IsAuthenticated_iff:
  assumes "requireAuthInHours env = Inr w" and "w \<le> 2562047"
  shows "(env ''ABOT_REQUIRE_AUTH_IN_HOURS'' = None \<longrightarrow> w = 168) \<and>
         (IsAuthenticated env now u m = Inr True \<longleftrightarrow>
            (\<exists>la. LastAuthenticated u = Some la \<and> now - w * 3600000000000 < la \<and>
                  m \<le> LastAuthenticationMethod u))"
proof -
  have w0: "0 \<le> w" using assms(1) by (rule requireAuthInHours_nonneg)
  have old: "Time_Add now (word_of_int (- 1 * w) * Hour) = now - w * 3600000000000"
    unfolding Time_Add_def sint_hours [OF w0 assms(2)] by simp
  have dflt: "env ''ABOT_REQUIRE_AUTH_IN_HOURS'' = None \<longrightarrow> w = 168"
    using assms(1) by (auto simp: requireAuthInHours_unset)
  have "IsAuthenticated env now u m =
      (case LastAuthenticated u of
         None \<Rightarrow> Inl panic_nil_dereference
       | Some la \<Rightarrow> Inr (now - w * 3600000000000 < la \<and> m \<le> LastAuthenticationMethod u))"
    by (simp only: IsAuthenticated_def assms(1) Let_def old Time_After_def sum.case)
  then have "IsAuthenticated env now u m = Inr True \<longleftrightarrow>
      (\<exists>la. LastAuthenticated u = Some la \<and> now - w * 3600000000000 < la \<and>
            m \<le> LastAuthenticationMethod u)"
    by (cases "LastAuthenticated u") auto
  with dflt show ?thesis by blast
qed

theorem IsAuthenticated_iff_witness:
  "requireAuthInHours Map.empty = Inr 168 \<and> (168 :: int) \<le> 2562047 \<and>
   IsAuthenticated Map.empty (1000 + 3600000000000) ex_ann 0 = Inr True \<and>
   IsAuthenticated Map.empty (1000 + 200 * 3600000000000) ex_ann 0 \<noteq> Inr True \<and>
   IsAuthenticated Map.empty (1000 + 3600000000000) ex_ann 1 \<noteq> Inr True"
proof -
  have r: "requireAuthInHours Map.empty = Inr 168" by (simp add: requireAuthInHours_unset)
  have b: "(168 :: int) \<le> 2562047" by simp
  show ?thesis
    using r b IsAuthenticated_iff [OF r b, of "1000 + 3600000000000" ex_ann 0]
      IsAuthenticated_iff [OF r b, of "1000 + 200 * 3600000000000" ex_ann 0]
      IsAuthenticated_iff [OF r b, of "1000 + 3600000000000" ex_ann 1]
    by (simp add: ex_ann_def)
qed


section \<open>\<open>GetUser\<close>: resolution by flexible id and by numeric id\<close>

lemma db_Get_no_fault:
  "db_fault db = None \<Longrightarrow>
   db_Get db rows = (case rows of [] \<Rightarrow> (Inl sql_ErrNoRows, db) | r # _ \<Rightarrow> (Inr r, db))"
  by (simp add: db_Get_def)

lemma snd_db_Get: "snd (db_Get db rows) = db"
  by (simp add: db_Get_def split: option.splits list.splits)

lemma hd_sort_key_least:
  assumes "xs \<noteq> []"
  shows "hd (sort_key f xs) \<in> set xs \<and> (\<forall>y \<in> set xs. f (hd (sort_key f xs)) \<le> f y)"
proof -
  let ?ys = "sort_key f xs"
  have ne: "?ys \<noteq> []" using assms by (metis length_sort list.size(3) length_0_conv)
  then obtain z zs where ys: "?ys = z # zs" by (cases ?ys) auto
  have "sorted (map f ?ys)" by (rule sorted_sort_key)
  then have "\<forall>y \<in> set zs. f z \<le> f y" by (simp add: ys)
  moreover have "set ?ys = set xs" by simp
  ultimately show ?thesis unfolding ys by (metis ys list.sel(1) list.set_intros(1) order_refl set_ConsD)
qed

lemma select_userflexids_latest:
  assumes "\<exists>m \<in> set (userflexids db). f_flexid m = fid \<and> f_flexidtype m = fidT"
  shows "\<exists>m ms. select_userflexids db fid fidT = m # ms \<and> m \<in> set (userflexids db) \<and>
           f_flexid m = fid \<and> f_flexidtype m = fidT \<and>
           (\<forall>m' \<in> set (userflexids db).
              f_flexid m' = fid \<and> f_flexidtype m' = fidT \<longrightarrow> f_createdat m' \<le> f_createdat m)"
proof -
  define P where "P = (\<lambda>r :: userflexids_row. f_flexid r = fid \<and> f_flexidtype r = fidT)"
  define xs where "xs = filter P (userflexids db)"
  define k where "k = (\<lambda>r :: userflexids_row. - f_createdat r)"
  have sel: "select_userflexids db fid fidT = sort_key k xs"
    by (simp only: select_userflexids_def xs_def P_def k_def)
  have ne: "xs \<noteq> []"
    using assms unfolding xs_def P_def filter_empty_conv by blast
  have h: "hd (sort_key k xs) \<in> set xs \<and> (\<forall>y \<in> set xs. k (hd (sort_key k xs)) \<le> k y)"
    using ne by (rule hd_sort_key_least)
  have "sort_key k xs \<noteq> []" using ne by (metis length_sort length_0_conv)
  then obtain m ms where ms: "sort_key k xs = m # ms" by (cases "sort_key k xs") simp_all
  have hd: "hd (sort_key k xs) = m" by (simp only: ms list.sel)
  have m_in: "m \<in> set xs" using h unfolding hd by (rule conjunct1)
  have m_le: "\<forall>y \<in> set xs. k m \<le> k y" using h unfolding hd by (rule conjunct2)
  have m1: "m \<in> set (userflexids db)" and m2: "P m"
    using m_in unfolding xs_def by simp_all
  have m3: "\<forall>m' \<in> set (userflexids db). P m' \<longrightarrow> f_createdat m' \<le> f_createdat m"
  proof (intro ballI impI)
    fix m' assume "m' \<in> set (userflexids db)" and "P m'"
    then have "m' \<in> set xs" unfolding xs_def by simp
    with m_le have "k m \<le> k m'" by (rule bspec)
    then show "f_createdat m' \<le> f_createdat m" unfolding k_def by simp
  qed
  have "select_userflexids db fid fidT = m # ms \<and> m \<in> set (userflexids db) \<and> P m \<and>
        (\<forall>m' \<in> set (userflexids db). P m' \<longrightarrow> f_createdat m' \<le> f_createdat m)"
    using sel ms m1 m2 m3 by (simp only: simp_thms)
  then show ?thesis unfolding P_def by blast
qed

lemma GetUser_positive: "uid \<noteq> 0 \<Longrightarrow> GetUser db uid fid fidT = loadUser db uid"
  by (simp add: GetUser_def)

lemma loadUser_cases:
  "fst (loadUser db uid) =
     (case db_fault db of
        Some e \<Rightarrow> Inl (driver_error e)
      | None \<Rightarrow> (case filter (\<lambda>r. u_id r = uid) (users db) of
                   [] \<Rightarrow> Inl sql_ErrNoRows
                 | r # _ \<Rightarrow> Inr (scan_User r)))"
  by (simp add: loadUser_def db_Get_def split: option.splits list.splits)

lemma loadUser_not_flex_errors:
  "fst (loadUser db uid) \<noteq> Inl ErrInvalidFlexIDType"
  by (simp add: loadUser_cases split: option.splits list.splits)

lemma loadUser_Inr:
  "fst (loadUser db uid) = Inr u \<Longrightarrow> \<exists>r \<in> set (users db). u_id r = uid \<and> u = scan_User r"
proof -
  assume a: "fst (loadUser db uid) = Inr u"
  then obtain r rs where f: "filter (\<lambda>r. u_id r = uid) (users db) = r # rs" and u: "u = scan_User r"
    by (auto simp: loadUser_cases split: option.splits list.splits)
  from f have "r \<in> set (filter (\<lambda>r. u_id r = uid) (users db))" by simp
  with u show ?thesis by auto
qed

lemma GetUser_zero:
  "GetUser db 0 fid fidT =
     (if fid = [] then (Inl ErrMissingFlexID, db)
      else (case db_Get db (map f_userid (select_userflexids db fid fidtPhone)) of
              (Inl err, db') \<Rightarrow>
                if err = sql_ErrNoRows then (Inl ErrMissingUser, db') else (Inl err, db')
            | (Inr uid', db') \<Rightarrow> loadUser db' uid'))"
  by (simp add: GetUser_def fidtPhone_def fidtInvalid_def)

lemma GetUser_zero_found:
  assumes "fid \<noteq> []" and "db_fault db = None"
    and "select_userflexids db fid fidtPhone = m # ms"
  shows "GetUser db 0 fid fidT = loadUser db (f_userid m)"
  by (simp add: GetUser_zero assms db_Get_no_fault)

lemma GetUser_Inr:
  assumes "fst (GetUser db uid fid fidT) = Inr u"
  shows "\<exists>uid'. fst (loadUser db uid') = Inr u"
proof (cases "uid = 0")
  case False
  then show ?thesis using assms by (auto simp: GetUser_positive)
next
  case True
  obtain res db' where g: "db_Get db (map f_userid (select_userflexids db fid fidtPhone)) = (res, db')"
    by (cases "db_Get db (map f_userid (select_userflexids db fid fidtPhone))") auto
  have db': "db' = db" using snd_db_Get [of db "map f_userid (select_userflexids db fid fidtPhone)"] g
    by simp
  show ?thesis
  proof (cases res)
    case (Inl err)
    then show ?thesis using assms True g by (simp add: GetUser_zero split: if_splits)
  next
    case (Inr uid')
    then have "fst (loadUser db uid') = Inr u"
      using assms True g db' by (simp add: GetUser_zero split: if_splits)
    then show ?thesis by blast
  qed
qed

lemma ex_db_fault: "db_fault ex_db = None"
  by (simp add: ex_db_def)

lemma loadUser_ex_ann: "loadUser ex_db 7 = (Inr ex_ann, ex_db)"
  by (simp add: loadUser_def db_Get_def ex_db_def ex_bob_row_def ex_ann_row_def scan_User_def
      ex_ann_def)

text \<open>
  C2 as stated fails: with the zero value \<open>fidtInvalid\<close> as type, which is neither
  e-mail nor phone, and a non-empty flexible id, \<open>GetUser\<close> does not fail with
  \<open>ErrInvalidFlexIDType\<close>; here it returns Ann, whose phone number the id is.
\<close>

theorem GetUser_invalid_type_counterexample:
  "''+15550100'' \<noteq> [] \<and> fidtInvalid \<noteq> fidtEmail \<and> fidtInvalid \<noteq> fidtPhone \<and>
   fst (GetUser ex_db 0 ''+15550100'' fidtInvalid) = Inr ex_ann"
proof -
  have "select_userflexids ex_db ''+15550100'' fidtPhone =
      [\<lparr>f_userid = 7, f_flexid = ''+15550100'', f_flexidtype = 2, f_createdat = 900\<rparr>,
       \<lparr>f_userid = 3, f_flexid = ''+15550100'', f_flexidtype = 2, f_createdat = 100\<rparr>]"
    by (simp add: select_userflexids_def ex_db_def fidtPhone_def)
  then have "GetUser ex_db 0 ''+15550100'' fidtInvalid = loadUser ex_db 7"
    by (simp add: GetUser_zero_found ex_db_fault)
  then show ?thesis
    by (simp add: loadUser_ex_ann fidtInvalid_def fidtEmail_def fidtPhone_def)
qed

text \<open>
  C2, amended. For every non-empty flexible id and every \<open>flexIdType\<close>, member of the
  enumeration or not, \<open>GetUser\<close> with numeric id 0 does exactly what it does for the
  type phone, and it never fails with \<open>ErrInvalidFlexIDType\<close>: the type is overwritten
  with \<open>fidtPhone\<close> before it is checked.
\<close>

theorem GetUser_type_forced_to_phone:
  assumes "fid \<noteq> []"
  shows "GetUser db 0 fid fidT = GetUser db 0 fid fidtPhone \<and>
         fst (GetUser db 0 fid fidT) \<noteq> Inl ErrInvalidFlexIDType"
proof -
  have a: "GetUser db 0 fid fidT = GetUser db 0 fid fidtPhone"
    by (simp add: GetUser_zero)
  have b: "fst (GetUser db 0 fid fidT) \<noteq> Inl ErrInvalidFlexIDType"
  proof
    assume e: "fst (GetUser db 0 fid fidT) = Inl ErrInvalidFlexIDType"
    obtain res db' where g:
      "db_Get db (map f_userid (select_userflexids db fid fidtPhone)) = (res, db')"
      by (cases "db_Get db (map f_userid (select_userflexids db fid fidtPhone))") auto
    have res: "res \<noteq> Inl ErrInvalidFlexIDType"
      using g by (auto simp: db_Get_def split: option.splits list.splits)
    show False
    proof (cases res)
      case (Inl err)
      then show False using e g res assms by (simp add: GetUser_zero split: if_splits)
    next
      case (Inr uid')
      then show False
        using e g assms loadUser_not_flex_errors [of db' uid'] by (simp add: GetUser_zero)
    qed
  qed
  from a b show ?thesis by (rule conjI)
qed

theorem GetUser_type_forced_to_phone_witness:
  "''+15550100'' \<noteq> [] \<and>
   GetUser ex_db 0 ''+15550100'' fidtInvalid = GetUser ex_db 0 ''+15550100'' fidtPhone \<and>
   fst (GetUser ex_db 0 ''+15550100'' fidtInvalid) \<noteq> Inl ErrInvalidFlexIDType"
proof -
  have h: "''+15550100'' \<noteq> []" by simp
  show ?thesis using h GetUser_type_forced_to_phone [OF h, of ex_db fidtInvalid] by blast
qed

text \<open>
  C3. The claim: for a non-zero numeric id with no row in \<open>users\<close>, resolution fails with
  \<open>ErrMissingUser\<close>. What the code does, on a store that answers: it fails with
  \<open>sql.ErrNoRows\<close>, the error of the lookup passed on as it is, and not with
  \<open>ErrMissingUser\<close> (the lookup by flexible id, lines 71 to 73, does translate it).
\<close>

theorem GetUser_absent_id_ErrNoRows:
  assumes "uid \<noteq> 0" and "db_fault db = None" and "uid \<notin> u_id ` set (users db)"
  shows "fst (GetUser db uid fid fidT) = Inl sql_ErrNoRows \<and>
         fst (GetUser db uid fid fidT) \<noteq> Inl ErrMissingUser"
proof -
  have "filter (\<lambda>r. u_id r = uid) (users db) = []"
    using assms(3) unfolding filter_empty_conv by blast
  then have "fst (loadUser db uid) = Inl sql_ErrNoRows"
    by (simp add: loadUser_cases assms(2))
  then show ?thesis by (simp add: GetUser_positive [OF assms(1)])
qed

theorem GetUser_absent_id_ErrNoRows_witness:
  "(99 :: uint64) \<noteq> 0 \<and> db_fault ex_db = None \<and> 99 \<notin> u_id ` set (users ex_db) \<and>
   fst (GetUser ex_db 99 [] fidtInvalid) = Inl sql_ErrNoRows"
proof -
  have h1: "(99 :: uint64) \<noteq> 0" by simp
  have h3: "99 \<notin> u_id ` set (users ex_db)"
    by (simp add: ex_db_def ex_bob_row_def ex_ann_row_def)
  show ?thesis
    using h1 h3 ex_db_fault GetUser_absent_id_ErrNoRows [OF h1 ex_db_fault h3, of "[]" fidtInvalid]
    by simp
qed

text \<open>
  C4 as stated fails for the valid type e-mail: Ann's e-mail address has a mapping of
  type e-mail to user 7, and user 7 is in the store, but resolution by that address and
  that type fails with \<open>ErrMissingUser\<close>, since the store is asked for a phone mapping.
\<close>

theorem GetUser_email_mapping_counterexample:
  "fidtEmail \<noteq> fidtInvalid \<and>
   select_userflexids ex_db ''ann@example.com'' fidtEmail =
     [\<lparr>f_userid = 7, f_flexid = ''ann@example.com'', f_flexidtype = 1, f_createdat = 500\<rparr>] \<and>
   fst (loadUser ex_db 7) = Inr ex_ann \<and>
   fst (GetUser ex_db 0 ''ann@example.com'' fidtEmail) = Inl ErrMissingUser"
proof -
  have "select_userflexids ex_db ''ann@example.com'' fidtPhone = []"
    by (simp add: select_userflexids_def ex_db_def fidtPhone_def)
  then have "fst (GetUser ex_db 0 ''ann@example.com'' fidtEmail) = Inl ErrMissingUser"
    by (simp add: GetUser_zero db_Get_no_fault ex_db_fault)
  moreover have "select_userflexids ex_db ''ann@example.com'' fidtEmail =
     [\<lparr>f_userid = 7, f_flexid = ''ann@example.com'', f_flexidtype = 1, f_createdat = 500\<rparr>]"
    by (simp add: select_userflexids_def ex_db_def fidtEmail_def)
  ultimately show ?thesis
    by (simp add: loadUser_ex_ann fidtEmail_def fidtInvalid_def)
qed

text \<open>
  C4, amended. For every non-empty flexible id with at least one mapping of type phone
  in a store that answers, and for every \<open>flexIdType\<close> passed, \<open>GetUser\<close> with numeric
  id 0 continues as the load of the user id of a mapping with that flexible id and type
  phone whose creation time is the latest among the mappings with that flexible id and
  type phone.
\<close>

theorem GetUser_latest_phone_mapping:
  assumes "fid \<noteq> []" and "db_fault db = None"
    and "\<exists>m \<in> set (userflexids db). f_flexid m = fid \<and> f_flexidtype m = fidtPhone"
  shows "\<exists>m \<in> set (userflexids db).
           f_flexid m = fid \<and> f_flexidtype m = fidtPhone \<and>
           (\<forall>m' \<in> set (userflexids db).
              f_flexid m' = fid \<and> f_flexidtype m' = fidtPhone \<longrightarrow>
                f_createdat m' \<le> f_createdat m) \<and>
           GetUser db 0 fid fidT = loadUser db (f_userid m)"
proof -
  obtain m ms where sel: "select_userflexids db fid fidtPhone = m # ms"
    and m1: "m \<in> set (userflexids db)"
    and m2: "f_flexid m = fid" "f_flexidtype m = fidtPhone"
    and m3: "\<forall>m' \<in> set (userflexids db).
               f_flexid m' = fid \<and> f_flexidtype m' = fidtPhone \<longrightarrow>
                 f_createdat m' \<le> f_createdat m"
    using select_userflexids_latest [OF assms(3)] by blast
  have "GetUser db 0 fid fidT = loadUser db (f_userid m)"
    using assms(1,2) sel by (rule GetUser_zero_found)
  with m1 m2 m3 show ?thesis by blast
qed

theorem GetUser_latest_phone_mapping_witness:
  "''+15550100'' \<noteq> [] \<and> db_fault ex_db = None \<and>
   GetUser ex_db 0 ''+15550100'' fidtEmail = loadUser ex_db 7 \<and>
   fst (GetUser ex_db 0 ''+15550100'' fidtEmail) = Inr ex_ann"
proof -
  have h1: "''+15550100'' \<noteq> []" by simp
  have h3: "\<exists>m \<in> set (userflexids ex_db). f_flexid m = ''+15550100'' \<and> f_flexidtype m = fidtPhone"
    by (simp add: ex_db_def fidtPhone_def)
  obtain m where m: "m \<in> set (userflexids ex_db)"
    "f_flexid m = ''+15550100''" "f_flexidtype m = fidtPhone"
    "\<forall>m' \<in> set (userflexids ex_db).
       f_flexid m' = ''+15550100'' \<and> f_flexidtype m' = fidtPhone \<longrightarrow>
         f_createdat m' \<le> f_createdat m"
    "GetUser ex_db 0 ''+15550100'' fidtEmail = loadUser ex_db (f_userid m)"
    using GetUser_latest_phone_mapping [OF h1 ex_db_fault h3, of fidtEmail] by blast
  have "f_userid m = 7"
    using m(1,2,4) by (auto simp: ex_db_def fidtPhone_def)
  with m(5) show ?thesis by (simp add: ex_db_fault loadUser_ex_ann)
qed

text \<open>
  C9. For every successful resolution, the \<open>User\<close> returned has \<open>ID\<close>, \<open>Name\<close>,
  \<open>Email\<close>, \<open>LastAuthenticated\<close> and \<open>StripeCustomerID\<close> of a row of \<open>users\<close>, and
  \<open>LastAuthenticationMethod\<close>, \<open>AuthorizationID\<close>, \<open>LocationID\<close> and \<open>Trainer\<close> at
  their zero values. The method is thus the zero value of \<open>AuthMethod\<close>, the lowest level
  of an enumeration counted from zero, and a freshly resolved user is never authenticated
  for a required method above it.
\<close>

theorem GetUser_populates_five_fields:
  assumes "fst (GetUser db uid fid fidT) = Inr u"
  shows "(\<exists>r \<in> set (users db).
            ID u = u_id r \<and> Name u = u_name r \<and> Email u = u_email r \<and>
            LastAuthenticated u = u_lastauthenticated r \<and>
            StripeCustomerID u = u_stripecustomerid r) \<and>
         LastAuthenticationMethod u = 0 \<and>
         AuthorizationID u = \<lparr>Int64 = 0, Valid = False\<rparr> \<and>
         LocationID u = 0 \<and> Trainer u = False \<and>
         (\<forall>env now m. 0 < m \<longrightarrow> IsAuthenticated env now u m \<noteq> Inr True)"
proof -
  obtain uid' where "fst (loadUser db uid') = Inr u"
    using GetUser_Inr [OF assms] by blast
  then obtain r where r: "r \<in> set (users db)" and u: "u = scan_User r"
    using loadUser_Inr by blast
  have zero: "LastAuthenticationMethod u = 0" by (simp add: u scan_User_def)
  have never: "\<forall>env now m. 0 < m \<longrightarrow> IsAuthenticated env now u m \<noteq> Inr True"
    by (auto simp: IsAuthenticated_def Let_def zero split: sum.splits option.splits)
  have fields: "\<exists>r \<in> set (users db).
            ID u = u_id r \<and> Name u = u_name r \<and> Email u = u_email r \<and>
            LastAuthenticated u = u_lastauthenticated r \<and>
            StripeCustomerID u = u_stripecustomerid r"
    using r by (rule bexI [rotated]) (simp add: u scan_User_def)
  show ?thesis
    using fields zero never by (simp add: u scan_User_def)
qed

theorem GetUser_populates_five_fields_witness:
  "fst (GetUser ex_db 7 [] fidtInvalid) = Inr ex_ann \<and>
   LastAuthenticationMethod ex_ann = 0 \<and> LocationID ex_ann = 0 \<and> Trainer ex_ann = False \<and>
   AuthorizationID ex_ann = \<lparr>Int64 = 0, Valid = False\<rparr> \<and>
   IsAuthenticated Map.empty 1001 ex_ann 1 \<noteq> Inr True"
proof -
  have h: "fst (GetUser ex_db 7 [] fidtInvalid) = Inr ex_ann"
    by (simp add: GetUser_positive loadUser_ex_ann)
  show ?thesis
    using h GetUser_populates_five_fields [OF h] by simp
qed


section \<open>\<open>UpdateAddressName\<close> and \<open>CheckActiveAuthorization\<close>\<close>

lemma find_Some_filter:
  "List.find P xs = Some x \<Longrightarrow> \<exists>ys. filter P xs = x # ys"
  by (induction xs) (auto split: if_splits)

lemma find_map_update:
  "List.find (\<lambda>r. a_id r = aid) rows = Some x \<Longrightarrow>
   List.find (\<lambda>r. a_id r = aid)
     (map (\<lambda>r. if a_id r = aid then r\<lparr>a_name := name\<rparr> else r) rows) = Some (x\<lparr>a_name := name\<rparr>)"
  by (induction rows) (auto split: if_splits)

lemma UpdateAddressName_found:
  assumes "db_fault db = None" and "List.find (\<lambda>r. a_id r = aid) (addresses db) = Some x"
  shows "UpdateAddressName db u aid name =
           (Inr (scan_Address (x\<lparr>a_name := name\<rparr>)),
            db\<lparr>addresses :=
                 map (\<lambda>r. if a_id r = aid then r\<lparr>a_name := name\<rparr> else r) (addresses db)\<rparr>)"
proof -
  let ?rows = "map (\<lambda>r. if a_id r = aid then r\<lparr>a_name := name\<rparr> else r) (addresses db)"
  let ?db1 = "db\<lparr>addresses := ?rows\<rparr>"
  have ex: "db_Exec_update_addresses_name db name aid = (Inr (), ?db1)"
    by (simp add: db_Exec_update_addresses_name_def assms(1))
  have "List.find (\<lambda>r. a_id r = aid) ?rows = Some (x\<lparr>a_name := name\<rparr>)"
    using assms(2) by (rule find_map_update)
  then have "\<exists>ys. filter (\<lambda>r. a_id r = aid) ?rows = x\<lparr>a_name := name\<rparr> # ys"
    by (rule find_Some_filter)
  then obtain ys where "filter (\<lambda>r. a_id r = aid) ?rows = x\<lparr>a_name := name\<rparr> # ys"
    by (elim exE)
  then have "db_Get ?db1 (filter (\<lambda>r. a_id r = aid) (addresses ?db1)) = (Inr (x\<lparr>a_name := name\<rparr>), ?db1)"
    by (simp add: db_Get_no_fault assms(1))
  then show ?thesis
    by (simp add: UpdateAddressName_def ex)
qed

text \<open>
  C7. For every stored address \<open>x\<close> (the row found under its id, in a store that
  answers) and every label \<open>l\<close>, \<open>UpdateAddressName\<close> returns the address with label
  \<open>l\<close> and the lines, city, state, country and zip of \<open>x\<close>, and the row found under
  that id afterwards is \<open>x\<close> with the name \<open>l\<close> and every other column as before.
\<close>

theorem UpdateAddressName_round_trip:
  assumes "db_fault db = None" and "List.find (\<lambda>r. a_id r = aid) (addresses db) = Some x"
  shows "fst (UpdateAddressName db u aid l) =
           Inr \<lparr>AddressName = l, Line1 = a_line1 x, Line2 = a_line2 x, City = a_city x,
                State = a_state x, Country = a_country x, Zip = a_zip x,
                Zip5 = [], Zip4 = []\<rparr> \<and>
         List.find (\<lambda>r. a_id r = aid) (addresses (snd (UpdateAddressName db u aid l))) =
           Some (x\<lparr>a_name := l\<rparr>)"
proof -
  have "List.find (\<lambda>r. a_id r = aid)
          (map (\<lambda>r. if a_id r = aid then r\<lparr>a_name := l\<rparr> else r) (addresses db)) =
        Some (x\<lparr>a_name := l\<rparr>)"
    using assms(2) by (rule find_map_update)
  then show ?thesis
    by (simp add: UpdateAddressName_found [OF assms] scan_Address_def)
qed

theorem UpdateAddressName_round_trip_witness:
  "db_fault ex_db = None \<and>
   List.find (\<lambda>r. a_id r = 11) (addresses ex_db) = Some ex_ann_home \<and>
   fst (UpdateAddressName ex_db ex_ann 11 ''cabin'') =
     Inr \<lparr>AddressName = ''cabin'', Line1 = ''1 Main St'', Line2 = ''Apt 2'',
          City = ''Springfield'', State = ''IL'', Country = ''USA'', Zip = ''62701-1234'',
          Zip5 = [], Zip4 = []\<rparr> \<and>
   List.find (\<lambda>r. a_id r = 11) (addresses (snd (UpdateAddressName ex_db ex_ann 11 ''cabin''))) =
     Some (ex_ann_home\<lparr>a_name := ''cabin''\<rparr>)"
proof -
  have h: "List.find (\<lambda>r. a_id r = 11) (addresses ex_db) = Some ex_ann_home"
    by (simp add: ex_db_def ex_ann_home_def)
  show ?thesis
    using h ex_db_fault UpdateAddressName_round_trip [OF ex_db_fault h, of ex_ann "''cabin''"]
    by (simp add: ex_ann_home_def)
qed

text \<open>
  C10. \<open>UpdateAddressName\<close> never looks at its receiver: for every address id and label,
  result and store are the same for any two receivers; in particular an address whose
  owner is not the receiver is renamed all the same.
\<close>

theorem UpdateAddressName_ignores_receiver:
  "UpdateAddressName db u1 aid name = UpdateAddressName db u2 aid name \<and>
   (db_fault db = None \<and> List.find (\<lambda>r. a_id r = aid) (addresses db) = Some x \<and>
    a_userid x \<noteq> ID u1 \<longrightarrow>
      fst (UpdateAddressName db u1 aid name) = Inr (scan_Address (x\<lparr>a_name := name\<rparr>)) \<and>
      List.find (\<lambda>r. a_id r = aid) (addresses (snd (UpdateAddressName db u1 aid name))) =
        Some (x\<lparr>a_name := name\<rparr>))"
proof -
  have a: "UpdateAddressName db u1 aid name = UpdateAddressName db u2 aid name"
    by (simp add: UpdateAddressName_def)
  have b: "fst (UpdateAddressName db u1 aid name) = Inr (scan_Address (x\<lparr>a_name := name\<rparr>)) \<and>
      List.find (\<lambda>r. a_id r = aid) (addresses (snd (UpdateAddressName db u1 aid name))) =
        Some (x\<lparr>a_name := name\<rparr>)"
    if "db_fault db = None" and "List.find (\<lambda>r. a_id r = aid) (addresses db) = Some x"
    using find_map_update [OF that(2), of name]
    by (simp add: UpdateAddressName_found [OF that])
  from a b show ?thesis by blast
qed

theorem UpdateAddressName_ignores_receiver_witness:
  "UpdateAddressName ex_db ex_bob 11 ''mine'' = UpdateAddressName ex_db ex_ann 11 ''mine'' \<and>
   a_userid ex_ann_home \<noteq> ID ex_bob \<and>
   fst (UpdateAddressName ex_db ex_bob 11 ''mine'') =
     Inr (scan_Address (ex_ann_home\<lparr>a_name := ''mine''\<rparr>)) \<and>
   List.find (\<lambda>r. a_id r = 11) (addresses (snd (UpdateAddressName ex_db ex_bob 11 ''mine''))) =
     Some (ex_ann_home\<lparr>a_name := ''mine''\<rparr>)"
proof -
  have h: "List.find (\<lambda>r. a_id r = 11) (addresses ex_db) = Some ex_ann_home"
    by (simp add: ex_db_def ex_ann_home_def)
  have o: "a_userid ex_ann_home \<noteq> ID ex_bob"
    by (simp add: ex_ann_home_def ex_bob_def)
  show ?thesis
    using h o ex_db_fault
      UpdateAddressName_ignores_receiver [of ex_db ex_bob 11 "''mine''" ex_ann ex_ann_home]
    by blast
qed

lemma CheckActiveAuthorization_store_unchanged:
  "snd (CheckActiveAuthorization db u) = db"
proof -
  obtain res db' where g:
    "db_Get db (map u_authorizationid (filter (\<lambda>r. u_id r = ID u) (users db))) = (res, db')"
    by (cases "db_Get db (map u_authorizationid (filter (\<lambda>r. u_id r = ID u) (users db)))")
      auto
  have "db' = db"
    using snd_db_Get [of db "map u_authorizationid (filter (\<lambda>r. u_id r = ID u) (users db))"] g
    by simp
  then show ?thesis
    using g by (cases res) (simp_all add: CheckActiveAuthorization_def Let_def)
qed

text \<open>
  C8. For every user with a row in \<open>users\<close> of a store that answers,
  \<open>CheckActiveAuthorization\<close> returns true if and only if the \<open>authorizationid\<close> of that
  row is not NULL, and leaves the store as it was; the \<open>AuthorizationID\<close> of the \<open>User\<close>
  value in memory has no part in the result.
\<close>

theorem CheckActiveAuthorization_reads_store:
  assumes "db_fault db = None" and "List.find (\<lambda>r. u_id r = ID u) (users db) = Some r"
  shows "CheckActiveAuthorization db u = (Inr (u_authorizationid r \<noteq> None), db) \<and>
         CheckActiveAuthorization db (u\<lparr>AuthorizationID := a\<rparr>) = CheckActiveAuthorization db u"
proof -
  have "\<exists>ys. filter (\<lambda>r. u_id r = ID u) (users db) = r # ys"
    using assms(2) by (rule find_Some_filter)
  then obtain ys where "filter (\<lambda>r. u_id r = ID u) (users db) = r # ys"
    by (elim exE)
  then have "CheckActiveAuthorization db u = (Inr (u_authorizationid r \<noteq> None), db)"
    by (simp add: CheckActiveAuthorization_def db_Get_no_fault assms(1) scan_NullInt64_def
        split: option.splits)
  moreover have "CheckActiveAuthorization db (u\<lparr>AuthorizationID := a\<rparr>) = CheckActiveAuthorization db u"
    by (simp add: CheckActiveAuthorization_def)
  ultimately show ?thesis by (rule conjI)
qed

theorem CheckActiveAuthorization_reads_store_witness:
  "db_fault ex_db = None \<and> List.find (\<lambda>r. u_id r = ID ex_ann) (users ex_db) = Some ex_ann_row \<and>
   Valid (AuthorizationID ex_ann) = False \<and>
   CheckActiveAuthorization ex_db ex_ann = (Inr True, ex_db) \<and>
   CheckActiveAuthorization
     (ex_db\<lparr>users := [ex_bob_row, ex_ann_row\<lparr>u_authorizationid := None\<rparr>]\<rparr>) ex_ann =
     (Inr False, ex_db\<lparr>users := [ex_bob_row, ex_ann_row\<lparr>u_authorizationid := None\<rparr>]\<rparr>)"
proof -
  let ?db = "ex_db\<lparr>users := [ex_bob_row, ex_ann_row\<lparr>u_authorizationid := None\<rparr>]\<rparr>"
  have h: "List.find (\<lambda>r. u_id r = ID ex_ann) (users ex_db) = Some ex_ann_row"
    by (simp add: ex_db_def ex_ann_def ex_bob_row_def ex_ann_row_def)
  have f': "db_fault ?db = None" by (simp add: ex_db_def)
  have h': "List.find (\<lambda>r. u_id r = ID ex_ann) (users ?db) =
      Some (ex_ann_row\<lparr>u_authorizationid := None\<rparr>)"
    by (simp add: ex_ann_def ex_bob_row_def ex_ann_row_def)
  show ?thesis
    using h ex_db_fault CheckActiveAuthorization_reads_store [OF ex_db_fault h]
      CheckActiveAuthorization_reads_store [OF f' h']
    by (simp add: ex_ann_row_def ex_ann_def)
qed


end
